theory Spec2Isabelle
  imports Complex_Main
begin

section \<open>The LSTM module of rltime: recurrent state around an opaque cell\<close>

text \<open>
  This theory embeds \<^verbatim>\<open>src/rltime/models/torch/modules/lstm.py\<close>: the class
  \<^verbatim>\<open>LSTM\<close> with its methods \<^verbatim>\<open>forward\<close> and \<^verbatim>\<open>get_state\<close>.

  A two-dimensional tensor of shape \<open>[n, u]\<close> is the list of its \<open>n\<close> rows, each a list
  of \<open>u\<close> numbers; a one-dimensional tensor is a list of numbers. Tensor entries are real
  numbers: rounding, infinities and NaN of 32-bit floats are outside the model. Tensors are
  rectangular and of positive width: where torch compares element counts, the model compares
  row counts, and \<^verbatim>\<open>torch.cat\<close> of the outputs is the concatenation of their rows.
\<close>

subsection \<open>Data\<close>

type_synonym tensor = "real list list"

datatype merge_mode = Outer | Inner

text \<open>
  The exceptions the two methods can raise, named by what they report:
  \<^item> \<open>UninitializedStateMisuse\<close>: the assertion of line 147 (\<^verbatim>\<open>assert(np.all(initials))\<close>);
  \<^item> \<open>ShapeMismatch\<close>: the other assertions (lines 53, 54, 58, 77, 155, 156), a
    \<^verbatim>\<open>view\<close> whose sizes do not fit, and a product whose operands do not broadcast;
  \<^item> \<open>ZeroDivisionError\<close>: Python's integer division or remainder by zero (lines 58, 62, 68);
  \<^item> \<open>AttributeError\<close>: \<^verbatim>\<open>.cpu()\<close> called on a NumPy array (line 151).
\<close>

datatype error = UninitializedStateMisuse | ShapeMismatch | ZeroDivisionError | AttributeError

text \<open>
  The attribute \<^verbatim>\<open>self.last_state\<close> is \<^verbatim>\<open>None\<close> after construction (line 45), a pair
  of torch tensors after \<^verbatim>\<open>forward\<close> (line 120) and after line 149, and a pair of NumPy
  arrays after line 153 of \<^verbatim>\<open>get_state\<close>.
\<close>

datatype cache = NoState | TorchState tensor tensor | NumpyState tensor tensor

text \<open>
  The fields of an \<^verbatim>\<open>LSTM\<close> object. The cell \<^verbatim>\<open>torch.nn.LSTMCell\<close> is not part of
  the repository: it is a parameter, a function from the input rows of one timestep and the
  state \<open>(hx, cx)\<close> to the next state. The merge mode is one of the two values that the
  assertion of line 40 admits.
\<close>

record lstm =
  inp_size :: nat
  num_units :: nat
  multi_sample_merge_mode :: merge_mode
  lstm_cell :: "tensor \<Rightarrow> tensor \<times> tensor \<Rightarrow> tensor \<times> tensor"
  last_state :: cache

text \<open>The dictionary that \<^verbatim>\<open>get_state\<close> returns (lines 157 to 161).\<close>

record state_dict =
  sd_hx :: tensor
  sd_cx :: tensor
  sd_initials :: "real list"

subsection \<open>Tensor operations\<close>

text \<open>
  Modelled from the spec: \<^verbatim>\<open>repeat_interleave\<close> is imported from \<^verbatim>\<open>..utils\<close>, which is
  not among the sources. The specification (section 4.4, and the glossary's "interleaved
  repeat") describes it as duplicating each row contiguously \<open>k\<close> times: row \<open>i\<close> of the
  input becomes rows \<open>[i * k, (i + 1) * k)\<close> of the output, as opposed to tiling the block.
\<close>

definition repeat_interleave :: "'a list \<Rightarrow> nat \<Rightarrow> 'a list" where
  "repeat_interleave xs k = concat (map (replicate k) xs)"

text \<open>
  \<^verbatim>\<open>t.view(g, n, ...)\<close> on a tensor with \<open>g * n\<close> rows: group \<open>j\<close> holds the rows
  \<open>j * n, ..., j * n + n - 1\<close>.
\<close>

definition view_rows :: "nat \<Rightarrow> nat \<Rightarrow> 'a list \<Rightarrow> 'a list list" where
  "view_rows g n xs = map (\<lambda>j. take n (drop (j * n) xs)) [0..<g]"

definition zeros :: "nat \<Rightarrow> nat \<Rightarrow> tensor" where
  "zeros n u = replicate n (replicate u 0)"

definition scale_row :: "real list \<Rightarrow> real \<Rightarrow> real list" where
  "scale_row r a = map (\<lambda>v. v * a) r"

text \<open>
  The product \<^verbatim>\<open>hx * (1 - initial)\<close> of a tensor of shape \<open>[n, u]\<close> with a mask of shape
  \<open>[b, 1]\<close> (lines 95 to 97 and 152 to 153), with the broadcasting of torch and NumPy: the
  row counts agree, or one of them is 1 and that operand is repeated, or the product fails.
\<close>

definition mask_mul :: "tensor \<Rightarrow> real list \<Rightarrow> error + tensor" where
  "mask_mul h initial =
     (if length h = length initial then Inr (map2 (\<lambda>r a. scale_row r (1 - a)) h initial)
      else if length h = 1 then Inr (map (\<lambda>a. scale_row (hd h) (1 - a)) initial)
      else if length initial = 1 then Inr (map (\<lambda>r. scale_row r (1 - hd initial)) h)
      else Inl ShapeMismatch)"

text \<open>
  The mean over the rows of one group, column by column: \<^verbatim>\<open>.mean(1)\<close> on one slice of
  the view. The width \<^verbatim>\<open>hx.shape[-1]\<close> is the length of the rows.
\<close>

definition mean_rows :: "tensor \<Rightarrow> real list" where
  "mean_rows g = map (\<lambda>j. sum_list (map (\<lambda>r. r ! j) g) / real (length g)) [0..<length (hd g)]"

text \<open>
  \<^verbatim>\<open>hx.view(-1, multi_sample, hx.shape[-1]).mean(1)\<close> (lines 115 and 116): the view fails
  unless the row count is a multiple of the group size.
\<close>

definition reduce_mean :: "tensor \<Rightarrow> nat \<Rightarrow> error + tensor" where
  "reduce_mean h k =
     (if k = 0 \<or> length h mod k \<noteq> 0 then Inl ShapeMismatch
      else Inr (map mean_rows (view_rows (length h div k) k h)))"

subsection \<open>The timestep loop of \<^verbatim>\<open>forward\<close>\<close>

text \<open>Lines 85 to 91: the state is repeated at timestep 0, or at every timestep when merging inside.\<close>

definition expand_state :: "lstm \<Rightarrow> nat \<Rightarrow> nat \<Rightarrow> tensor \<times> tensor \<Rightarrow> tensor \<times> tensor" where
  "expand_state m multi_sample i s =
     (if multi_sample > 1 \<and> (i = 0 \<or> multi_sample_merge_mode m = Inner)
      then (repeat_interleave (fst s) multi_sample, repeat_interleave (snd s) multi_sample)
      else s)"

text \<open>Lines 93 to 97: the state is multiplied by \<open>1 - initial\<close>, first \<open>hx\<close>, then \<open>cx\<close>.\<close>

definition reset_state :: "tensor \<times> tensor \<Rightarrow> real list \<Rightarrow> error + tensor \<times> tensor" where
  "reset_state s initial =
     (case mask_mul (fst s) initial of
        Inl e \<Rightarrow> Inl e
      | Inr hx \<Rightarrow>
          (case mask_mul (snd s) initial of
             Inl e \<Rightarrow> Inl e
           | Inr cx \<Rightarrow> Inr (hx, cx)))"

text \<open>
  Lines 105 to 116: the state is averaged over the samples at the last timestep, or at every
  timestep when merging inside. The test \<^verbatim>\<open>i == timesteps - 1\<close> is on Python integers; it is
  written \<open>Suc i = timesteps\<close>.
\<close>

definition merge_state :: "lstm \<Rightarrow> nat \<Rightarrow> nat \<Rightarrow> nat \<Rightarrow> tensor \<times> tensor \<Rightarrow> error + tensor \<times> tensor" where
  "merge_state m multi_sample timesteps i s =
     (if multi_sample > 1 \<and> (Suc i = timesteps \<or> multi_sample_merge_mode m = Inner)
      then (case reduce_mean (fst s) multi_sample of
              Inl e \<Rightarrow> Inl e
            | Inr hx \<Rightarrow>
                (case reduce_mean (snd s) multi_sample of
                   Inl e \<Rightarrow> Inl e
                 | Inr cx \<Rightarrow> Inr (hx, cx)))
      else Inr s)"

text \<open>
  Lines 82 to 116: the loop over \<^verbatim>\<open>enumerate(zip(x, initials))\<close>, from index \<open>i\<close> on. It
  returns the list \<^verbatim>\<open>out\<close> of the outputs appended at line 103 and the state carried out of
  the last timestep.
\<close>

fun timestep_loop ::
  "lstm \<Rightarrow> nat \<Rightarrow> nat \<Rightarrow> nat \<Rightarrow> (tensor \<times> real list) list \<Rightarrow> tensor \<times> tensor
    \<Rightarrow> error + tensor list \<times> tensor \<times> tensor" where
  "timestep_loop m multi_sample timesteps i [] s = Inr ([], s)"
| "timestep_loop m multi_sample timesteps i ((x, initial) # rest) s =
     (case reset_state (expand_state m multi_sample i s) initial of
        Inl e \<Rightarrow> Inl e
      | Inr s_in \<Rightarrow>
          (let s_out = lstm_cell m x s_in in
           case merge_state m multi_sample timesteps i s_out of
             Inl e \<Rightarrow> Inl e
           | Inr s_next \<Rightarrow>
               (case timestep_loop m multi_sample timesteps (Suc i) rest s_next of
                  Inl e \<Rightarrow> Inl e
                | Inr (out, s_last) \<Rightarrow> Inr (fst s_out # out, s_last))))"

subsection \<open>\<^verbatim>\<open>forward\<close>\<close>

text \<open>
  Lines 53 to 80: the shape checks and the values derived from the shapes. The argument \<open>x\<close>
  is the input after the flattening of line 52, of shape \<open>[rows, inp_size]\<close>;
  \<open>timesteps\<close> is a natural number. The result is the pair
  \<open>(multi_sample, batch_size)\<close>.
\<close>

definition forward_shapes ::
  "lstm \<Rightarrow> tensor \<Rightarrow> tensor \<Rightarrow> tensor \<Rightarrow> real list \<Rightarrow> nat \<Rightarrow> error + nat \<times> nat" where
  "forward_shapes m x hx cx initials timesteps =
     (if \<not> list_all (\<lambda>r. length r = num_units m) hx then Inl ShapeMismatch
      else if \<not> list_all (\<lambda>r. length r = num_units m) cx then Inl ShapeMismatch
      else if length hx = 0 then Inl ZeroDivisionError
      else if length x mod length hx \<noteq> 0 then Inl ShapeMismatch
      else if timesteps = 0 then Inl ZeroDivisionError
      else if length x div length hx = 0 then Inl ZeroDivisionError
      else
        (let multi_sample = length x div length hx;
             batch_size = length x div timesteps
         in if length hx \<noteq> timesteps * (batch_size div multi_sample) then Inl ShapeMismatch
            else if length cx \<noteq> timesteps * (batch_size div multi_sample) then Inl ShapeMismatch
            else if length x \<noteq> timesteps * batch_size then Inl ShapeMismatch
            else if length initials \<noteq> (batch_size * timesteps) div multi_sample
              then Inl ShapeMismatch
            else if multi_sample > 1
                    \<and> length (repeat_interleave initials multi_sample) \<noteq> timesteps * batch_size
              then Inl ShapeMismatch
            else Inr (multi_sample, batch_size)))"

text \<open>
  \<^verbatim>\<open>forward(x, hx, cx, initials, timesteps)\<close>: the result and the object after the call.
  An exception leaves the object as it was; a return stores the last state (line 120).
\<close>

definition forward ::
  "lstm \<Rightarrow> tensor \<Rightarrow> tensor \<Rightarrow> tensor \<Rightarrow> real list \<Rightarrow> nat \<Rightarrow> (error + tensor) \<times> lstm" where
  "forward m x hx cx initials timesteps =
     (case forward_shapes m x hx cx initials timesteps of
        Inl e \<Rightarrow> (Inl e, m)
      | Inr (multi_sample, batch_size) \<Rightarrow>
          (let hx0 = take (batch_size div multi_sample) hx;
               cx0 = take (batch_size div multi_sample) cx;
               xs = view_rows timesteps batch_size x;
               initials' = (if multi_sample > 1 then repeat_interleave initials multi_sample
                            else initials);
               inits = view_rows timesteps batch_size initials'
           in case timestep_loop m multi_sample timesteps 0 (zip xs inits) (hx0, cx0) of
                Inl e \<Rightarrow> (Inl e, m)
              | Inr (out, (h, c)) \<Rightarrow> (Inr (concat out), m\<lparr>last_state := TorchState h c\<rparr>)))"

subsection \<open>\<^verbatim>\<open>get_state\<close>\<close>

text \<open>
  Lines 144 to 149: on the first call every entry of \<open>initials\<close> must be true, and the state
  starts as zeros.
\<close>

definition init_last_state :: "lstm \<Rightarrow> bool list \<Rightarrow> error + lstm" where
  "init_last_state m initials =
     (case last_state m of
        NoState \<Rightarrow>
          (if list_all id initials
           then Inr (m\<lparr>last_state := TorchState (zeros (length initials) (num_units m))
                                                (zeros (length initials) (num_units m))\<rparr>)
           else Inl UninitializedStateMisuse)
      | _ \<Rightarrow> Inr m)"

text \<open>
  \<^verbatim>\<open>get_state(initials)\<close>: the result and the object after the call. The argument is a
  NumPy array of booleans; line 142 casts it to 0.0 and 1.0. Line 151 needs torch tensors in
  \<^verbatim>\<open>self.last_state\<close>; line 153 stores NumPy arrays there, and the assertions of lines 155
  and 156 run after that assignment.
\<close>

definition get_state :: "lstm \<Rightarrow> bool list \<Rightarrow> (error + state_dict) \<times> lstm" where
  "get_state m initials_b =
     (let initials = map of_bool initials_b;
          batch_size = length initials
      in case init_last_state m initials_b of
           Inl e \<Rightarrow> (Inl e, m)
         | Inr m1 \<Rightarrow>
             (case last_state m1 of
                TorchState hx cx \<Rightarrow>
                  (case mask_mul hx initials of
                     Inl e \<Rightarrow> (Inl e, m1)
                   | Inr hx' \<Rightarrow>
                       (case mask_mul cx initials of
                          Inl e \<Rightarrow> (Inl e, m1)
                        | Inr cx' \<Rightarrow>
                            (let m2 = m1\<lparr>last_state := NumpyState hx' cx'\<rparr>
                             in if length hx' \<noteq> batch_size then (Inl ShapeMismatch, m2)
                                else if length cx' \<noteq> batch_size then (Inl ShapeMismatch, m2)
                                else (Inr \<lparr>sd_hx = hx', sd_cx = cx', sd_initials = initials\<rparr>,
                                      m2))))
              | _ \<Rightarrow> (Inl AttributeError, m1)))"

subsection \<open>The states of one timestep\<close>

text \<open>
  A record of what the loop body computes at one timestep: the variable \<^verbatim>\<open>initial\<close>, the
  state carried into the timestep, the state after lines 85 to 91, the state passed to the
  cell at line 100, the state the cell returns, and the state after lines 105 to 116.
\<close>

record step_trace =
  st_initial :: "real list"
  st_carried :: "tensor \<times> tensor"
  st_expanded :: "tensor \<times> tensor"
  st_fed :: "tensor \<times> tensor"
  st_cell_out :: "tensor \<times> tensor"
  st_next :: "tensor \<times> tensor"

text \<open>
  The loop of \<open>timestep_loop\<close> once more, equation by equation, collecting the record of
  every timestep instead of the outputs. Lemma \<open>timestep_loop_trace\<close> below relates the two.
\<close>

fun loop_trace ::
  "lstm \<Rightarrow> nat \<Rightarrow> nat \<Rightarrow> nat \<Rightarrow> (tensor \<times> real list) list \<Rightarrow> tensor \<times> tensor
    \<Rightarrow> error + step_trace list" where
  "loop_trace m multi_sample timesteps i [] s = Inr []"
| "loop_trace m multi_sample timesteps i ((x, initial) # rest) s =
     (case reset_state (expand_state m multi_sample i s) initial of
        Inl e \<Rightarrow> Inl e
      | Inr s_in \<Rightarrow>
          (let s_out = lstm_cell m x s_in in
           case merge_state m multi_sample timesteps i s_out of
             Inl e \<Rightarrow> Inl e
           | Inr s_next \<Rightarrow>
               (case loop_trace m multi_sample timesteps (Suc i) rest s_next of
                  Inl e \<Rightarrow> Inl e
                | Inr tr \<Rightarrow>
                    Inr (\<lparr>st_initial = initial, st_carried = s,
                          st_expanded = expand_state m multi_sample i s,
                          st_fed = s_in, st_cell_out = s_out, st_next = s_next\<rparr> # tr))))"

text \<open>The records of the timesteps of one call of \<^verbatim>\<open>forward\<close>.\<close>

definition forward_trace ::
  "lstm \<Rightarrow> tensor \<Rightarrow> tensor \<Rightarrow> tensor \<Rightarrow> real list \<Rightarrow> nat \<Rightarrow> error + step_trace list" where
  "forward_trace m x hx cx initials timesteps =
     (case forward_shapes m x hx cx initials timesteps of
        Inl e \<Rightarrow> Inl e
      | Inr (multi_sample, batch_size) \<Rightarrow>
          (let hx0 = take (batch_size div multi_sample) hx;
               cx0 = take (batch_size div multi_sample) cx;
               xs = view_rows timesteps batch_size x;
               initials' = (if multi_sample > 1 then repeat_interleave initials multi_sample
                            else initials);
               inits = view_rows timesteps batch_size initials'
           in loop_trace m multi_sample timesteps 0 (zip xs inits) (hx0, cx0)))"

text \<open>
  What the loop needs of the cell: given an input and a state of equally many rows, it
  returns a state of that many rows (as \<^verbatim>\<open>torch.nn.LSTMCell\<close> does).
\<close>

definition cell_shape_ok :: "(tensor \<Rightarrow> tensor \<times> tensor \<Rightarrow> tensor \<times> tensor) \<Rightarrow> bool" where
  "cell_shape_ok cell =
     (\<forall>x s. length (fst s) = length x \<and> length (snd s) = length x
        \<longrightarrow> length (fst (cell x s)) = length x \<and> length (snd (cell x s)) = length x)"

text \<open>Both components of a state have \<open>n\<close> rows.\<close>

definition has_rows :: "tensor \<times> tensor \<Rightarrow> nat \<Rightarrow> bool" where
  "has_rows s n = (length (fst s) = n \<and> length (snd s) = n)"

text \<open>
  The row count of the state carried into timestep \<open>i\<close> (or out of the loop, for
  \<open>i = timesteps\<close>) when there are \<open>b\<close> sequences: it is the repeated state only
  strictly inside a sequence that is merged outside.
\<close>

definition carried_rows :: "lstm \<Rightarrow> nat \<Rightarrow> nat \<Rightarrow> nat \<Rightarrow> nat \<Rightarrow> nat" where
  "carried_rows m multi_sample timesteps i b =
     (if multi_sample > 1 \<and> multi_sample_merge_mode m = Outer \<and> 0 < i \<and> i < timesteps
      then b * multi_sample else b)"

subsection \<open>A small instance\<close>

text \<open>
  A cell to run the module on concrete inputs: every entry of \<open>hx\<close> grows by the sum of its
  input row, every entry of \<open>cx\<close> doubles and grows by that sum.
\<close>

definition toy_cell :: "tensor \<Rightarrow> tensor \<times> tensor \<Rightarrow> tensor \<times> tensor" where
  "toy_cell x s =
     (map2 (\<lambda>xr hr. map (\<lambda>v. v + sum_list xr) hr) x (fst s),
      map2 (\<lambda>xr cr. map (\<lambda>v. 2 * v + sum_list xr) cr) x (snd s))"

definition toy_lstm :: "merge_mode \<Rightarrow> lstm" where
  "toy_lstm mode =
     \<lparr>inp_size = 1, num_units = 2, multi_sample_merge_mode = mode,
      lstm_cell = toy_cell, last_state = NoState\<rparr>"

text \<open>
  Inputs for it: one sequence, three samples, two timesteps. The second rows of \<open>toy_hx\<close>
  and \<open>toy_cx\<close> belong to timestep 1.
\<close>

definition toy_x :: tensor where
  "toy_x = [[1], [2], [3], [4], [5], [6]]"

definition toy_hx :: tensor where
  "toy_hx = [[5, 5], [9, 9]]"

definition toy_cx :: tensor where
  "toy_cx = [[3, 3], [7, 7]]"

section \<open>Properties\<close>

subsection \<open>Views, repeats and means\<close>




lemma length_repeat_interleave: "length (repeat_interleave xs k) = k * length xs"
  by (induction xs) (simp_all add: repeat_interleave_def)


lemma length_view_rows: "length (view_rows g n xs) = g"
  by (simp add: view_rows_def)

lemma nth_view_rows: "j < g \<Longrightarrow> view_rows g n xs ! j = take n (drop (j * n) xs)"
  by (simp add: view_rows_def)

lemma length_nth_view_rows:
  assumes "j < g" "length xs = g * n"
  shows "length (view_rows g n xs ! j) = n"
proof -
  have "Suc j \<le> g" using assms by simp
  then have "Suc j * n \<le> g * n" by (rule mult_le_mono1)
  then have "n \<le> g * n - j * n" by simp
  then show ?thesis using assms by (simp add: nth_view_rows)
qed



lemma reduce_mean_ok:
  "0 < k \<Longrightarrow> length h = b * k \<Longrightarrow> \<exists>h'. reduce_mean h k = Inr h' \<and> length h' = b"
  by (simp add: reduce_mean_def length_view_rows)



subsection \<open>Masks\<close>


lemma scale_row_1: "scale_row r 1 = r"
  by (simp add: scale_row_def)




lemma mask_mul_all_false: "mask_mul h (replicate (length h) 0) = Inr h"
proof -
  have "map2 (\<lambda>r a. scale_row r (1 - a)) h (replicate (length h) 0) = h"
    by (induction h) (simp_all add: scale_row_1)
  then show ?thesis by (simp add: mask_mul_def)
qed

lemma mask_all_true:
  "list_all id bs \<Longrightarrow>
     map2 (\<lambda>r a. scale_row r (1 - a)) (replicate (length bs) (replicate u 0)) (map of_bool bs)
       = replicate (length bs) (replicate u 0)"
  by (induction bs) (simp_all add: scale_row_def)

subsection \<open>The loop and the states of its timesteps\<close>

text \<open>The loop returns the outputs and the last state that the records hold.\<close>

lemma timestep_loop_trace:
  "timestep_loop m ms T i xs s =
     (case loop_trace m ms T i xs s of
        Inl e \<Rightarrow> Inl e
      | Inr tr \<Rightarrow> Inr (map (\<lambda>e. fst (st_cell_out e)) tr,
                        if tr = [] then s else st_next (last tr)))"
proof (induction xs arbitrary: i s)
  case Nil
  show ?case by simp
next
  case (Cons a xs)
  obtain x initial where a: "a = (x, initial)" by (cases a)
  show ?case
    unfolding a
    by (simp add: Cons.IH Let_def split: sum.splits)
qed

lemma loop_trace_length:
  "loop_trace m ms T i xs s = Inr tr \<Longrightarrow> length tr = length xs"
proof (induction xs arbitrary: i s tr)
  case Nil
  then show ?case by simp
next
  case (Cons a xs)
  obtain x initial where a: "a = (x, initial)" by (cases a)
  show ?case
    using Cons.prems Cons.IH unfolding a
    by (auto simp: Let_def split: sum.splits)
qed

lemma loop_trace_steps:
  "loop_trace m ms T i xs s = Inr tr \<Longrightarrow> t < length xs \<Longrightarrow>
     st_initial (tr ! t) = snd (xs ! t)
   \<and> st_carried (tr ! t) = (if t = 0 then s else st_next (tr ! (t - 1)))
   \<and> st_expanded (tr ! t) = expand_state m ms (i + t) (st_carried (tr ! t))
   \<and> reset_state (st_expanded (tr ! t)) (snd (xs ! t)) = Inr (st_fed (tr ! t))
   \<and> st_cell_out (tr ! t) = lstm_cell m (fst (xs ! t)) (st_fed (tr ! t))
   \<and> merge_state m ms T (i + t) (st_cell_out (tr ! t)) = Inr (st_next (tr ! t))"
proof (induction xs arbitrary: i s tr t)
  case Nil
  then show ?case by simp
next
  case (Cons a xs)
  obtain x initial where a: "a = (x, initial)" by (cases a)
  from Cons.prems(1) obtain s_in s_next tr' where
    r: "reset_state (expand_state m ms i s) initial = Inr s_in" and
    mg: "merge_state m ms T i (lstm_cell m x s_in) = Inr s_next" and
    rec: "loop_trace m ms T (Suc i) xs s_next = Inr tr'" and
    tr: "tr = \<lparr>st_initial = initial, st_carried = s,
                st_expanded = expand_state m ms i s,
                st_fed = s_in, st_cell_out = lstm_cell m x s_in, st_next = s_next\<rparr> # tr'"
    unfolding a by (auto simp: Let_def split: sum.splits)
  show ?case
  proof (cases t)
    case 0
    then show ?thesis using r mg tr a by simp
  next
    case (Suc t')
    then have "t' < length xs" using Cons.prems(2) by simp
    from Cons.IH[OF rec this] show ?thesis
      using Suc tr a by (cases t') auto
  qed
qed


text \<open>Row counts along the loop, for a cell that keeps the row count.\<close>

lemma expand_state_rows:
  assumes "has_rows s (carried_rows m ms T i b)" "i < T" "0 < ms"
  shows "has_rows (expand_state m ms i s) (b * ms)"
proof (cases "1 < ms")
  case True
  then show ?thesis
    using assms
    by (cases "multi_sample_merge_mode m")
       (auto simp: has_rows_def carried_rows_def expand_state_def length_repeat_interleave)
next
  case False
  then have "ms = 1" using assms(3) by simp
  then show ?thesis
    using assms by (simp add: has_rows_def carried_rows_def expand_state_def)
qed

lemma reset_state_rows:
  assumes "has_rows s n" "length initial = n"
  shows "\<exists>s'. reset_state s initial = Inr s' \<and> has_rows s' n"
  using assms by (simp add: reset_state_def mask_mul_def has_rows_def)

lemma cell_rows:
  assumes "cell_shape_ok cell" "has_rows s n" "length x = n"
  shows "has_rows (cell x s) n"
proof -
  have "length (fst s) = length x \<and> length (snd s) = length x
          \<longrightarrow> length (fst (cell x s)) = length x \<and> length (snd (cell x s)) = length x"
    using assms(1) unfolding cell_shape_ok_def by (elim allE)
  then show ?thesis
    using assms(2,3) by (simp add: has_rows_def)
qed

lemma merge_state_rows:
  assumes "has_rows s (b * ms)" "i < T" "0 < ms"
  shows "\<exists>s'. merge_state m ms T i s = Inr s' \<and> has_rows s' (carried_rows m ms T (Suc i) b)"
proof (cases "1 < ms \<and> (Suc i = T \<or> multi_sample_merge_mode m = Inner)")
  case True
  obtain h' where h: "reduce_mean (fst s) ms = Inr h'" "length h' = b"
    using reduce_mean_ok[of ms "fst s" b] assms by (auto simp: has_rows_def)
  obtain c' where c: "reduce_mean (snd s) ms = Inr c'" "length c' = b"
    using reduce_mean_ok[of ms "snd s" b] assms by (auto simp: has_rows_def)
  have "carried_rows m ms T (Suc i) b = b"
    using True by (auto simp: carried_rows_def)
  then show ?thesis
    using True h c by (simp add: merge_state_def has_rows_def)
next
  case False
  have "carried_rows m ms T (Suc i) b = b * ms"
  proof (cases "1 < ms")
    case True
    then have "Suc i < T" "multi_sample_merge_mode m = Outer"
      using False assms(2) by (auto intro: merge_mode.exhaust)
    then show ?thesis using True by (simp add: carried_rows_def)
  next
    case False
    then have "ms = 1" using assms(3) by simp
    then show ?thesis by (simp add: carried_rows_def)
  qed
  moreover have "merge_state m ms T i s = Inr s"
    unfolding merge_state_def using False by (rule if_not_P)
  ultimately show ?thesis
    using assms(1) by simp
qed

lemma loop_trace_rows:
  assumes ok: "cell_shape_ok (lstm_cell m)" and ms: "0 < ms"
  shows "i + length xs = T \<Longrightarrow>
     list_all (\<lambda>xi. length (fst xi) = b * ms \<and> length (snd xi) = b * ms) xs \<Longrightarrow>
     has_rows s (carried_rows m ms T i b) \<Longrightarrow>
     \<exists>tr. loop_trace m ms T i xs s = Inr tr
        \<and> list_all (\<lambda>e. has_rows (st_expanded e) (b * ms) \<and> has_rows (st_fed e) (b * ms)
                         \<and> has_rows (st_cell_out e) (b * ms)) tr
        \<and> has_rows (if tr = [] then s else st_next (last tr)) b"
proof (induction xs arbitrary: i s)
  case Nil
  then show ?case by (simp add: carried_rows_def)
next
  case (Cons a xs)
  obtain x initial where a: "a = (x, initial)" by (cases a)
  have iT: "i < T" using Cons.prems(1) by simp
  have lx: "length x = b * ms" and li: "length initial = b * ms"
    using Cons.prems(2) a by simp_all
  have e: "has_rows (expand_state m ms i s) (b * ms)"
    using expand_state_rows[OF Cons.prems(3) iT ms] .
  obtain s_in where r: "reset_state (expand_state m ms i s) initial = Inr s_in"
      and rin: "has_rows s_in (b * ms)"
    using reset_state_rows[OF e li] by blast
  have co: "has_rows (lstm_cell m x s_in) (b * ms)"
    using cell_rows[OF ok rin lx] .
  obtain s_next where mg: "merge_state m ms T i (lstm_cell m x s_in) = Inr s_next"
      and rn: "has_rows s_next (carried_rows m ms T (Suc i) b)"
    using merge_state_rows[OF co iT ms] by blast
  have "Suc i + length xs = T" using Cons.prems(1) by simp
  moreover have "list_all (\<lambda>xi. length (fst xi) = b * ms \<and> length (snd xi) = b * ms) xs"
    using Cons.prems(2) by simp
  ultimately obtain tr where
      rec: "loop_trace m ms T (Suc i) xs s_next = Inr tr" and
      rows: "list_all (\<lambda>e. has_rows (st_expanded e) (b * ms) \<and> has_rows (st_fed e) (b * ms)
                         \<and> has_rows (st_cell_out e) (b * ms)) tr" and
      fin: "has_rows (if tr = [] then s_next else st_next (last tr)) b"
    using Cons.IH[of "Suc i" s_next] rn by blast
  show ?case
    unfolding a using r mg rec rows fin e rin co by (simp add: Let_def split: if_splits)
qed

lemma loop_single_sample_mode:
  assumes "ms \<le> 1" "lstm_cell m1 = lstm_cell m2"
  shows "timestep_loop m1 ms T i xs s = timestep_loop m2 ms T i xs s"
proof (induction xs arbitrary: i s)
  case Nil
  show ?case by simp
next
  case (Cons a xs)
  obtain x initial where a: "a = (x, initial)" by (cases a)
  have e: "expand_state m1 ms i s = expand_state m2 ms i s" for i s
    using assms(1) by (simp add: expand_state_def)
  have g: "merge_state m1 ms T i s = merge_state m2 ms T i s" for i s
    using assms(1) by (simp add: merge_state_def)
  show ?case
    unfolding a by (simp add: e g assms(2) Cons.IH Let_def cong: sum.case_cong)
qed

subsection \<open>\<^verbatim>\<open>forward\<close>\<close>

lemma forward_shapes_facts:
  assumes "forward_shapes m x hx cx initials T = Inr (ms, bs)"
  shows "ms = length x div length hx" "bs = length x div T" "0 < T" "0 < ms"
    "length x = T * bs" "bs = (bs div ms) * ms"
    "length hx = T * (bs div ms)" "length cx = T * (bs div ms)"
    "length (if 1 < ms then repeat_interleave initials ms else initials) = T * bs"
proof -
  note a = assms[unfolded forward_shapes_def Let_def]
  show ms: "ms = length x div length hx" using a by (simp split: if_splits)
  show bs: "bs = length x div T" using a by (simp split: if_splits)
  show T: "0 < T" using a by (simp split: if_splits)
  show ms0: "0 < ms" using a by (simp split: if_splits)
  show lx: "length x = T * bs" using a by (simp split: if_splits)
  show lh: "length hx = T * (bs div ms)" using a by (simp split: if_splits)
  show "length cx = T * (bs div ms)" using a by (simp split: if_splits)
  have "length x mod length hx = 0" using a by (simp split: if_splits)
  then have "length x = ms * length hx" using ms by auto
  then have "T * bs = T * ((bs div ms) * ms)" using lx lh by (simp add: mult_ac)
  then show dv: "bs = (bs div ms) * ms" using T by simp
  have li: "length initials = (bs * T) div ms" using a by (simp split: if_splits)
  show "length (if 1 < ms then repeat_interleave initials ms else initials) = T * bs"
  proof (cases "1 < ms")
    case True
    then show ?thesis using a by (simp split: if_splits)
  next
    case False
    then have "ms = 1" using ms0 by simp
    then show ?thesis using li by (simp add: mult.commute)
  qed
qed

lemma forward_shapes_widths:
  "map length hx' = map length hx \<Longrightarrow> map length cx' = map length cx \<Longrightarrow>
     forward_shapes m x hx' cx' initials T = forward_shapes m x hx cx initials T"
proof -
  assume h: "map length hx' = map length hx" and c: "map length cx' = map length cx"
  have w: "list_all (\<lambda>r. length r = u) ys = list_all (\<lambda>l. l = u) (map length ys)"
    for u and ys :: tensor
    by (simp add: list_all_iff)
  have lh: "length hx' = length hx" using h by (rule map_eq_imp_length_eq)
  have lc: "length cx' = length cx" using c by (rule map_eq_imp_length_eq)
  show ?thesis
    unfolding forward_shapes_def w h c lh lc ..
qed

lemma forward_trace_length:
  assumes "forward_trace m x hx cx initials T = Inr tr"
  shows "length tr = T" "0 < T"
proof -
  obtain ms bs where sh: "forward_shapes m x hx cx initials T = Inr (ms, bs)"
    using assms by (auto simp: forward_trace_def split: sum.splits)
  then have "loop_trace m ms T 0
      (zip (view_rows T bs x)
           (view_rows T bs (if 1 < ms then repeat_interleave initials ms else initials)))
      (take (bs div ms) hx, take (bs div ms) cx) = Inr tr"
    using assms by (simp add: forward_trace_def Let_def)
  from loop_trace_length[OF this] show "length tr = T"
    by (simp add: length_view_rows)
  show "0 < T" using forward_shapes_facts(3)[OF sh] .
qed

lemma forward_via_trace:
  "forward m x hx cx initials T =
     (case forward_trace m x hx cx initials T of
        Inl e \<Rightarrow> (Inl e, m)
      | Inr tr \<Rightarrow>
          (Inr (concat (map (\<lambda>e. fst (st_cell_out e)) tr)),
           m\<lparr>last_state := TorchState (fst (st_next (last tr))) (snd (st_next (last tr)))\<rparr>))"
proof (cases "forward_shapes m x hx cx initials T")
  case (Inl e)
  then show ?thesis by (simp add: forward_def forward_trace_def)
next
  case (Inr p)
  obtain ms bs where p: "p = (ms, bs)" by (cases p)
  show ?thesis
  proof (cases "forward_trace m x hx cx initials T")
    case (Inl e)
    then show ?thesis
      using Inr p by (simp add: forward_def forward_trace_def Let_def timestep_loop_trace)
  next
    case tr: (Inr tr)
    have "tr \<noteq> []" using forward_trace_length[OF tr] by auto
    then show ?thesis
      using Inr p tr
      by (simp add: forward_def forward_trace_def Let_def timestep_loop_trace case_prod_beta)
  qed
qed

lemma forward_returns:
  assumes "forward m x hx cx initials T = (Inr out, m')"
  obtains tr ms bs where
    "forward_shapes m x hx cx initials T = Inr (ms, bs)"
    "forward_trace m x hx cx initials T = Inr tr"
    "out = concat (map (\<lambda>e. fst (st_cell_out e)) tr)"
    "m' = m\<lparr>last_state := TorchState (fst (st_next (last tr))) (snd (st_next (last tr)))\<rparr>"
proof -
  obtain tr where tr: "forward_trace m x hx cx initials T = Inr tr"
    using assms unfolding forward_via_trace by (cases "forward_trace m x hx cx initials T") auto
  obtain ms bs where sh: "forward_shapes m x hx cx initials T = Inr (ms, bs)"
    using tr by (auto simp: forward_trace_def split: sum.splits)
  show ?thesis
    using that[OF sh tr] assms unfolding forward_via_trace tr by simp
qed

lemma forward_trace_steps:
  assumes tr: "forward_trace m x hx cx initials T = Inr tr" and t: "t < T"
  defines "ms \<equiv> length x div length hx" and "bs \<equiv> length x div T"
  shows "st_initial (tr ! t)
           = view_rows T bs (if 1 < ms then repeat_interleave initials ms else initials) ! t"
    "st_carried (tr ! t)
           = (if t = 0 then (take (bs div ms) hx, take (bs div ms) cx) else st_next (tr ! (t - 1)))"
    "st_expanded (tr ! t) = expand_state m ms t (st_carried (tr ! t))"
    "reset_state (st_expanded (tr ! t)) (st_initial (tr ! t)) = Inr (st_fed (tr ! t))"
    "st_cell_out (tr ! t) = lstm_cell m (view_rows T bs x ! t) (st_fed (tr ! t))"
    "merge_state m ms T t (st_cell_out (tr ! t)) = Inr (st_next (tr ! t))"
proof -
  obtain ms' bs' where sh: "forward_shapes m x hx cx initials T = Inr (ms', bs')"
    using tr by (auto simp: forward_trace_def split: sum.splits)
  have eq: "ms' = ms" "bs' = bs"
    using forward_shapes_facts(1,2)[OF sh] by (simp_all add: ms_def bs_def)
  let ?xs = "zip (view_rows T bs x)
                 (view_rows T bs (if 1 < ms then repeat_interleave initials ms else initials))"
  have lt: "loop_trace m ms T 0 ?xs (take (bs div ms) hx, take (bs div ms) cx) = Inr tr"
    using tr sh eq by (simp add: forward_trace_def Let_def)
  have tl: "t < length ?xs" using t by (simp add: length_view_rows)
  have nth: "?xs ! t = (view_rows T bs x ! t,
        view_rows T bs (if 1 < ms then repeat_interleave initials ms else initials) ! t)"
    using t by (simp add: length_view_rows)
  note st = loop_trace_steps[OF lt tl, unfolded nth fst_conv snd_conv add_0]
  show ini: "st_initial (tr ! t)
           = view_rows T bs (if 1 < ms then repeat_interleave initials ms else initials) ! t"
    using st by blast
  show "reset_state (st_expanded (tr ! t)) (st_initial (tr ! t)) = Inr (st_fed (tr ! t))"
    unfolding ini using st by blast
  show "st_carried (tr ! t)
           = (if t = 0 then (take (bs div ms) hx, take (bs div ms) cx) else st_next (tr ! (t - 1)))"
    using st by blast
  show "st_expanded (tr ! t) = expand_state m ms t (st_carried (tr ! t))"
    using st by blast
  show "st_cell_out (tr ! t) = lstm_cell m (view_rows T bs x ! t) (st_fed (tr ! t))"
    using st by blast
  show "merge_state m ms T t (st_cell_out (tr ! t)) = Inr (st_next (tr ! t))"
    using st by blast
qed

lemma forward_trace_rows:
  assumes sh: "forward_shapes m x hx cx initials T = Inr (ms, bs)"
      and ok: "cell_shape_ok (lstm_cell m)"
  shows "\<exists>tr. forward_trace m x hx cx initials T = Inr tr
          \<and> list_all (\<lambda>e. has_rows (st_expanded e) bs \<and> has_rows (st_fed e) bs
                           \<and> has_rows (st_cell_out e) bs) tr
          \<and> has_rows (st_next (last tr)) (bs div ms)"
proof -
  note f = forward_shapes_facts[OF sh]
  let ?b = "bs div ms"
  let ?ini = "if 1 < ms then repeat_interleave initials ms else initials"
  let ?xs = "zip (view_rows T bs x) (view_rows T bs ?ini)"
  have bm: "?b * ms = bs" using f(6) by simp
  have len: "0 + length ?xs = T" by (simp add: length_view_rows)
  have each: "list_all (\<lambda>xi. length (fst xi) = ?b * ms \<and> length (snd xi) = ?b * ms) ?xs"
    unfolding bm list_all_length
  proof (intro allI impI)
    fix n assume "n < length ?xs"
    then have n: "n < T" by (simp add: length_view_rows)
    then show "length (fst (?xs ! n)) = bs \<and> length (snd (?xs ! n)) = bs"
      using length_nth_view_rows[OF n f(5)] length_nth_view_rows[OF n f(9)]
      by (simp add: length_view_rows)
  qed
  have "?b \<le> T * ?b" using f(3) by simp
  then have start: "has_rows (take ?b hx, take ?b cx) (carried_rows m ms T 0 ?b)"
    using f(7,8) by (simp add: has_rows_def carried_rows_def)
  obtain tr where
      lt: "loop_trace m ms T 0 ?xs (take ?b hx, take ?b cx) = Inr tr" and
      rows: "list_all (\<lambda>e. has_rows (st_expanded e) (?b * ms) \<and> has_rows (st_fed e) (?b * ms)
                         \<and> has_rows (st_cell_out e) (?b * ms)) tr" and
      fin: "has_rows (if tr = [] then (take ?b hx, take ?b cx) else st_next (last tr)) ?b"
    using loop_trace_rows[OF ok f(4) len each start] by blast
  have ft: "forward_trace m x hx cx initials T = Inr tr"
    using sh lt by (simp add: forward_trace_def Let_def)
  have "tr \<noteq> []" using forward_trace_length[OF ft] by auto
  then show ?thesis
    using ft rows fin unfolding bm by simp
qed

text \<open>With shapes that pass the checks and a cell that keeps the row count, the call returns.\<close>

lemma forward_returns_on_fitting_shapes:
  assumes "forward_shapes m x hx cx initials T = Inr (ms, bs)" and "cell_shape_ok (lstm_cell m)"
  shows "\<exists>out m'. forward m x hx cx initials T = (Inr out, m')"
proof -
  obtain tr where "forward_trace m x hx cx initials T = Inr tr"
    using forward_trace_rows[OF assms] by blast
  then show ?thesis
    unfolding forward_via_trace by simp
qed


lemma toy_cell_ok: "cell_shape_ok toy_cell"
  by (simp add: cell_shape_ok_def toy_cell_def)





text \<open>
  C3. Shape of the output of \<^verbatim>\<open>forward\<close>. The claim that, when merging outside, the
  last per-timestep output is the reduced one does not hold: line 103 appends the state the
  cell returns before lines 105 to 116 reduce it, in both modes. The run below, merging
  outside with one sequence, three samples and two timesteps, returns six rows, the last
  three being what the cell returned at timestep 1; the reduced row goes to the stored state
  only.
\<close>

theorem outer_output_not_reduced:
  "fst (forward (toy_lstm Outer) toy_x [[0, 0], [9, 9]] [[0, 0], [7, 7]] [1, 0] 2)
     = Inr [[1, 1], [2, 2], [3, 3], [5, 5], [7, 7], [9, 9]]
   \<and> fst (forward (toy_lstm Outer) toy_x [[0, 0], [9, 9]] [[0, 0], [7, 7]] [1, 0] 2)
     \<noteq> Inr [[1, 1], [2, 2], [3, 3], [7, 7]]
   \<and> last_state (snd (forward (toy_lstm Outer) toy_x [[0, 0], [9, 9]] [[0, 0], [7, 7]] [1, 0] 2))
     = TorchState [[7, 7]] [[9, 9]]"
  by code_simp

text \<open>
  C3, as the code has it. The output of a call that returns is the concatenation, in the
  order of the timesteps, of the \<open>hx\<close> the cell returned at each timestep. In both merge
  modes every one of them, the last included, has \<open>length x div timesteps\<close> rows (the
  sequences times the samples), so the output has as many rows as \<open>x\<close>: the timesteps
  times the sequences times the samples. The cell is taken to return as many rows as it is
  given.
\<close>

theorem forward_output_rows:
  assumes "forward m x hx cx initials T = (Inr out, m')" and "cell_shape_ok (lstm_cell m)"
  shows "\<exists>tr. forward_trace m x hx cx initials T = Inr tr
           \<and> length tr = T
           \<and> out = concat (map (\<lambda>e. fst (st_cell_out e)) tr)
           \<and> list_all (\<lambda>e. length (fst (st_cell_out e)) = length x div T) tr
           \<and> length out = length x
           \<and> length x = T * (length x div (T * (length x div length hx))) * (length x div length hx)"
proof -
  from assms(1) obtain tr ms bs where
      sh: "forward_shapes m x hx cx initials T = Inr (ms, bs)" and
      tr: "forward_trace m x hx cx initials T = Inr tr" and
      out: "out = concat (map (\<lambda>e. fst (st_cell_out e)) tr)"
    by (rule forward_returns)
  note f = forward_shapes_facts[OF sh]
  have rows: "list_all (\<lambda>e. length (fst (st_cell_out e)) = bs) tr"
    using forward_trace_rows[OF sh assms(2)] tr by (auto simp: has_rows_def list_all_iff)
  have len: "length tr = T" using forward_trace_length(1)[OF tr] .
  have "length (concat (map (\<lambda>e. fst (st_cell_out e)) tr)) = length tr * bs"
    using rows by (induction tr) simp_all
  then have "length out = T * bs"
    unfolding out using len by simp
  then have lo: "length out = length x"
    using f(5) by simp
  have "length x = T * ((bs div ms) * ms)"
    using f(5,6) by simp
  then have lx: "length x = T * (bs div ms) * ms"
    by (simp only: mult.assoc)
  have b: "length x div (T * ms) = bs div ms"
    unfolding div_mult2_eq f(2)[symmetric] ..
  show ?thesis
    unfolding f(1)[symmetric] f(2)[symmetric] b
    using tr len out rows lo lx by blast
qed

theorem forward_output_rows_witness:
  "\<exists>tr. forward_trace (toy_lstm Outer) toy_x [[0, 0], [9, 9]] [[0, 0], [7, 7]] [1, 0] 2 = Inr tr
      \<and> length tr = 2
      \<and> [[1, 1], [2, 2], [3, 3], [5, 5], [7, 7], [9, 9]]
          = concat (map (\<lambda>e. fst (st_cell_out e)) tr)
      \<and> list_all (\<lambda>e. length (fst (st_cell_out e)) = length toy_x div 2) tr
      \<and> length [[1, 1], [2, 2], [3, 3], [5, 5], [7, 7], [9, 9::real]] = length toy_x
      \<and> length toy_x
          = 2 * (length toy_x div (2 * (length toy_x div length [[0, 0], [9, 9::real]])))
              * (length toy_x div length [[0, 0], [9, 9::real]])"
proof -
  have "fst (forward (toy_lstm Outer) toy_x [[0, 0], [9, 9]] [[0, 0], [7, 7]] [1, 0] 2)
      = Inr [[1, 1], [2, 2], [3, 3], [5, 5], [7, 7], [9, 9]]"
    by code_simp
  then have run: "forward (toy_lstm Outer) toy_x [[0, 0], [9, 9]] [[0, 0], [7, 7]] [1, 0] 2
      = (Inr [[1, 1], [2, 2], [3, 3], [5, 5], [7, 7], [9, 9]],
         snd (forward (toy_lstm Outer) toy_x [[0, 0], [9, 9]] [[0, 0], [7, 7]] [1, 0] 2))"
    by (simp add: prod_eq_iff)
  have ok: "cell_shape_ok (lstm_cell (toy_lstm Outer))"
    using toy_cell_ok by (simp add: toy_lstm_def)
  show ?thesis
    by (rule forward_output_rows[OF run ok])
qed

text \<open>
  C5. \<^verbatim>\<open>forward\<close> reads only the rows of timestep 0 of \<open>hx\<close> and \<open>cx\<close>. Two calls on
  the same object with the same \<open>x\<close>, \<open>initials\<close> and \<open>timesteps\<close>, whose states have
  the same shape and the same first \<open>length hx div timesteps\<close> rows, give the same result:
  the same output or error, and the same object with the same stored state.
\<close>

theorem forward_uses_timestep0_state:
  assumes "map length hx' = map length hx" and "map length cx' = map length cx"
      and "take (length hx div T) hx' = take (length hx div T) hx"
      and "take (length hx div T) cx' = take (length hx div T) cx"
  shows "forward m x hx' cx' initials T = forward m x hx cx initials T"
proof (cases "forward_shapes m x hx cx initials T")
  case (Inl e)
  then show ?thesis
    using forward_shapes_widths[OF assms(1,2), of m x initials T] by (simp add: forward_def)
next
  case (Inr p)
  obtain ms bs where p: "p = (ms, bs)" by (cases p)
  note sh = Inr[unfolded p]
  have "length hx div T = bs div ms"
    using forward_shapes_facts(3,7)[OF sh] by simp
  then have "take (bs div ms) hx' = take (bs div ms) hx" "take (bs div ms) cx' = take (bs div ms) cx"
    using assms(3,4) by simp_all
  then show ?thesis
    using sh forward_shapes_widths[OF assms(1,2), of m x initials T]
    by (simp add: forward_def)
qed

theorem forward_uses_timestep0_state_witness:
  "forward (toy_lstm Inner) toy_x [[5, 5], [100, 200]] [[3, 3], [- 1, 0]] [0, 1] 2
     = forward (toy_lstm Inner) toy_x toy_hx toy_cx [0, 1] 2
   \<and> fst (forward (toy_lstm Inner) toy_x toy_hx toy_cx [0, 1] 2)
     = Inr [[6, 6], [7, 7], [8, 8], [4, 4], [5, 5], [6, 6]]"
proof -
  have sh: "map length [[5, 5], [100, 200::real]] = map length toy_hx"
      "map length [[3, 3], [- 1, 0::real]] = map length toy_cx"
    by code_simp+
  have t0: "take (length toy_hx div 2) [[5, 5], [100, 200]] = take (length toy_hx div 2) toy_hx"
      "take (length toy_hx div 2) [[3, 3], [- 1, 0]] = take (length toy_hx div 2) toy_cx"
    by code_simp+
  have "fst (forward (toy_lstm Inner) toy_x toy_hx toy_cx [0, 1] 2)
      = Inr [[6, 6], [7, 7], [8, 8], [4, 4], [5, 5], [6, 6]]"
    by code_simp
  then show ?thesis
    using forward_uses_timestep0_state[OF sh t0] by simp
qed

text \<open>
  C6. The state that \<^verbatim>\<open>forward\<close> stores is the reduced one. After a call that returns,
  the stored \<open>hx\<close> and \<open>cx\<close> have one row per sequence, that is
  \<open>length x div (timesteps * multi_sample)\<close> rows with
  \<open>multi_sample = length x div length hx\<close>, in both merge modes. The cell is taken to
  return as many rows as it is given.
\<close>

theorem cached_state_rows:
  assumes "forward m x hx cx initials T = (Inr out, m')" and "cell_shape_ok (lstm_cell m)"
  shows "\<exists>h c. last_state m' = TorchState h c
           \<and> length h = length x div (T * (length x div length hx))
           \<and> length c = length x div (T * (length x div length hx))"
proof -
  from assms(1) obtain tr ms bs where
      sh: "forward_shapes m x hx cx initials T = Inr (ms, bs)" and
      tr: "forward_trace m x hx cx initials T = Inr tr" and
      m': "m' = m\<lparr>last_state := TorchState (fst (st_next (last tr))) (snd (st_next (last tr)))\<rparr>"
    by (rule forward_returns)
  have "has_rows (st_next (last tr)) (bs div ms)"
    using forward_trace_rows[OF sh assms(2)] tr by auto
  moreover have "bs div ms = length x div (T * (length x div length hx))"
    using forward_shapes_facts(1,2)[OF sh] by (simp add: div_mult2_eq)
  ultimately show ?thesis
    using m' by (simp add: has_rows_def)
qed

theorem cached_state_rows_witness:
  "last_state (snd (forward (toy_lstm Inner) toy_x [[0, 0], [9, 9]] [[0, 0], [7, 7]] [1, 0] 2))
     = TorchState [[7, 7]] [[9, 9]]
   \<and> (\<exists>h c. last_state (snd (forward (toy_lstm Inner) toy_x [[0, 0], [9, 9]] [[0, 0], [7, 7]]
                              [1, 0] 2)) = TorchState h c
          \<and> length h = 1 \<and> length c = 1)"
proof -
  have "fst (forward (toy_lstm Inner) toy_x [[0, 0], [9, 9]] [[0, 0], [7, 7]] [1, 0] 2)
      = Inr [[1, 1], [2, 2], [3, 3], [6, 6], [7, 7], [8, 8]]"
    by code_simp
  then have run: "forward (toy_lstm Inner) toy_x [[0, 0], [9, 9]] [[0, 0], [7, 7]] [1, 0] 2
      = (Inr [[1, 1], [2, 2], [3, 3], [6, 6], [7, 7], [8, 8]],
         snd (forward (toy_lstm Inner) toy_x [[0, 0], [9, 9]] [[0, 0], [7, 7]] [1, 0] 2))"
    by (simp add: prod_eq_iff)
  have ok: "cell_shape_ok (lstm_cell (toy_lstm Inner))"
    using toy_cell_ok by (simp add: toy_lstm_def)
  have n: "length toy_x div (2 * (length toy_x div length [[0, 0], [9, 9::real]])) = 1"
    by code_simp
  have st: "last_state (snd (forward (toy_lstm Inner) toy_x [[0, 0], [9, 9]] [[0, 0], [7, 7]]
      [1, 0] 2)) = TorchState [[7, 7]] [[9, 9]]"
    by code_simp
  from cached_state_rows[OF run ok, unfolded n] st show ?thesis
    by blast
qed

text \<open>
  C7. Without oversampling the merge mode does not matter. When
  \<open>multi_sample = length x div length hx\<close> is 1, the object set to merge outside and the
  object set to merge inside give the same result of \<^verbatim>\<open>forward\<close> (the same output, or the
  same error) and store the same state.
\<close>

theorem merge_mode_equivalence_single_sample:
  assumes "length x div length hx = 1"
  shows "fst (forward (m\<lparr>multi_sample_merge_mode := Outer\<rparr>) x hx cx initials T)
           = fst (forward (m\<lparr>multi_sample_merge_mode := Inner\<rparr>) x hx cx initials T)
       \<and> last_state (snd (forward (m\<lparr>multi_sample_merge_mode := Outer\<rparr>) x hx cx initials T))
           = last_state (snd (forward (m\<lparr>multi_sample_merge_mode := Inner\<rparr>) x hx cx initials T))"
proof -
  let ?mo = "m\<lparr>multi_sample_merge_mode := Outer\<rparr>" and ?mi = "m\<lparr>multi_sample_merge_mode := Inner\<rparr>"
  have sh: "forward_shapes ?mo x hx cx initials T = forward_shapes ?mi x hx cx initials T"
    by (simp add: forward_shapes_def)
  show ?thesis
  proof (cases "forward_shapes ?mi x hx cx initials T")
    case (Inl e)
    then show ?thesis using sh by (simp add: forward_def)
  next
    case (Inr p)
    obtain ms bs where p: "p = (ms, bs)" by (cases p)
    have ms: "ms = 1"
      using forward_shapes_facts(1)[OF Inr[unfolded p]] assms by simp
    have lp: "timestep_loop ?mo ms T i xs s = timestep_loop ?mi ms T i xs s" for i xs s
      by (rule loop_single_sample_mode) (simp_all add: ms)
    show ?thesis
      using Inr sh unfolding p
      by (simp add: forward_def Let_def lp split: sum.splits prod.splits)
  qed
qed

theorem merge_mode_equivalence_single_sample_witness:
  "length [[1], [2::real]] div length [[5, 5], [6, 6::real]] = 1
   \<and> fst (forward ((toy_lstm Inner)\<lparr>multi_sample_merge_mode := Outer\<rparr>)
             [[1], [2]] [[5, 5], [6, 6]] [[1, 1], [2, 2]] [0, 0] 2)
       = Inr [[6, 6], [8, 8]]
   \<and> fst (forward ((toy_lstm Inner)\<lparr>multi_sample_merge_mode := Inner\<rparr>)
             [[1], [2]] [[5, 5], [6, 6]] [[1, 1], [2, 2]] [0, 0] 2)
       = Inr [[6, 6], [8, 8]]
   \<and> last_state (snd (forward ((toy_lstm Inner)\<lparr>multi_sample_merge_mode := Outer\<rparr>)
             [[1], [2]] [[5, 5], [6, 6]] [[1, 1], [2, 2]] [0, 0] 2))
       = last_state (snd (forward ((toy_lstm Inner)\<lparr>multi_sample_merge_mode := Inner\<rparr>)
             [[1], [2]] [[5, 5], [6, 6]] [[1, 1], [2, 2]] [0, 0] 2))"
proof -
  have ms: "length [[1], [2::real]] div length [[5, 5], [6, 6::real]] = 1"
    by code_simp
  have "fst (forward ((toy_lstm Inner)\<lparr>multi_sample_merge_mode := Outer\<rparr>)
             [[1], [2]] [[5, 5], [6, 6]] [[1, 1], [2, 2]] [0, 0] 2)
       = Inr [[6, 6], [8, 8]]"
    by code_simp
  then show ?thesis
    using ms merge_mode_equivalence_single_sample[OF ms, of "toy_lstm Inner" "[[1, 1], [2, 2]]"
      "[0, 0]" 2]
    by simp
qed

subsection \<open>\<^verbatim>\<open>get_state\<close>\<close>

lemma get_state_all_false:
  assumes "last_state m = TorchState h c" "length h = n" "length c = n"
  shows "get_state m (replicate n False)
           = (Inr \<lparr>sd_hx = h, sd_cx = c, sd_initials = replicate n 0\<rparr>,
              m\<lparr>last_state := NumpyState h c\<rparr>)"
proof -
  have "mask_mul h (replicate n 0) = Inr h" "mask_mul c (replicate n 0) = Inr c"
    using mask_mul_all_false[of h] mask_mul_all_false[of c] assms(2,3) by simp_all
  then show ?thesis
    using assms by (simp add: get_state_def init_last_state_def Let_def)
qed

text \<open>
  C9. On the first call of \<^verbatim>\<open>get_state\<close> (no state stored yet), the call fails if and only
  if some entry of \<open>initials\<close> is false, and then with \<open>UninitializedStateMisuse\<close>, leaving
  the object as it was. When every entry is true, the state is created as zeros of shape
  \<open>[length initials, num_units]\<close>, and the returned and stored \<open>hx\<close> and \<open>cx\<close> are those zeros.
\<close>

theorem get_state_first_call:
  assumes "last_state m = NoState"
  shows "(get_state m initials = (Inl UninitializedStateMisuse, m) \<longleftrightarrow> False \<in> set initials)
       \<and> ((\<exists>e. fst (get_state m initials) = Inl e) \<longleftrightarrow> False \<in> set initials)
       \<and> (False \<notin> set initials \<longrightarrow>
            init_last_state m initials
              = Inr (m\<lparr>last_state := TorchState (zeros (length initials) (num_units m))
                                                (zeros (length initials) (num_units m))\<rparr>)
          \<and> get_state m initials
              = (Inr \<lparr>sd_hx = zeros (length initials) (num_units m),
                      sd_cx = zeros (length initials) (num_units m),
                      sd_initials = map of_bool initials\<rparr>,
                 m\<lparr>last_state := NumpyState (zeros (length initials) (num_units m))
                                              (zeros (length initials) (num_units m))\<rparr>))"
proof (cases "list_all id initials")
  case True
  then have "False \<notin> set initials"
    by (auto simp: list_all_iff)
  then show ?thesis
    using assms True mask_all_true[OF True, of "num_units m"]
    by (simp add: get_state_def init_last_state_def mask_mul_def zeros_def Let_def)
next
  case False
  then have "False \<in> set initials"
    by (auto simp: list_all_iff)
  then show ?thesis
    using assms False by (simp add: get_state_def init_last_state_def Let_def)
qed

theorem get_state_first_call_witness:
  "last_state (toy_lstm Inner) = NoState
   \<and> get_state (toy_lstm Inner) [True, False] = (Inl UninitializedStateMisuse, toy_lstm Inner)
   \<and> get_state (toy_lstm Inner) [True, True]
       = (Inr \<lparr>sd_hx = [[0, 0], [0, 0]], sd_cx = [[0, 0], [0, 0]], sd_initials = [1, 1]\<rparr>,
          (toy_lstm Inner)\<lparr>last_state := NumpyState [[0, 0], [0, 0]] [[0, 0], [0, 0]]\<rparr>)"
  using get_state_first_call[of "toy_lstm Inner" "[True, False]"]
        get_state_first_call[of "toy_lstm Inner" "[True, True]"]
  by (simp add: toy_lstm_def zeros_def numeral_2_eq_2)





text \<open>
  C4. State persistence. After a call of \<^verbatim>\<open>forward\<close> with one timestep and no
  oversampling that returns, the stored state is the pair \<open>(h, c)\<close> that the cell returned
  on the reset input state (and \<open>h\<close> is the output), and a following \<^verbatim>\<open>get_state\<close> with
  one false flag per sequence returns exactly that pair. The cell is taken to return as many
  rows as it is given.
\<close>

theorem state_persistence:
  assumes fw: "forward m x hx cx initials 1 = (Inr out, m')"
      and ms: "length x div length hx = 1"
      and ok: "cell_shape_ok (lstm_cell m)"
  shows "\<exists>s_in h c. reset_state (hx, cx) initials = Inr s_in
           \<and> lstm_cell m x s_in = (h, c)
           \<and> out = h
           \<and> last_state m' = TorchState h c
           \<and> get_state m' (replicate (length x) False)
               = (Inr \<lparr>sd_hx = h, sd_cx = c, sd_initials = replicate (length x) 0\<rparr>,
                  m'\<lparr>last_state := NumpyState h c\<rparr>)"
proof -
  from fw obtain tr ms' bs where
      sh: "forward_shapes m x hx cx initials 1 = Inr (ms', bs)" and
      tr: "forward_trace m x hx cx initials 1 = Inr tr" and
      out: "out = concat (map (\<lambda>e. fst (st_cell_out e)) tr)" and
      m': "m' = m\<lparr>last_state := TorchState (fst (st_next (last tr))) (snd (st_next (last tr)))\<rparr>"
    by (rule forward_returns)
  note f = forward_shapes_facts[OF sh]
  have ms': "ms' = 1" using f(1) ms by simp
  have bs: "bs = length x" using f(2) by simp
  have "length tr = 1" using forward_trace_length(1)[OF tr] .
  then obtain e where e: "tr = [e]"
    by (cases tr) simp_all
  note st = forward_trace_steps[OF tr, of 0, unfolded ms, simplified, folded bs]
  have lh: "length hx = bs" and lc: "length cx = bs" and li: "length initials = bs"
    using f(7,8,9) ms' by simp_all
  have v: "view_rows (Suc 0) bs initials = [initials]" "view_rows (Suc 0) bs x = [x]"
    using li bs by (simp_all add: view_rows_def)
  have carried: "st_carried e = (hx, cx)"
    using st(2) e lh lc by simp
  have expanded: "st_expanded e = (hx, cx)"
    using st(3) e carried by (simp add: expand_state_def)
  have fed: "reset_state (hx, cx) initials = Inr (st_fed e)"
    using st(4) st(1) e expanded v by simp
  have cell: "st_cell_out e = lstm_cell m x (st_fed e)"
    using st(5) e v by simp
  have nxt: "st_next e = st_cell_out e"
    using st(6) e by (simp add: merge_state_def)
  have "has_rows (st_cell_out e) bs"
    using forward_trace_rows[OF sh ok] tr e by simp
  then have rows: "length (fst (st_cell_out e)) = length x" "length (snd (st_cell_out e)) = length x"
    using bs by (simp_all add: has_rows_def)
  have ls: "last_state m' = TorchState (fst (st_cell_out e)) (snd (st_cell_out e))"
    using m' e nxt by simp
  have "get_state m' (replicate (length x) False)
           = (Inr \<lparr>sd_hx = fst (st_cell_out e), sd_cx = snd (st_cell_out e),
                   sd_initials = replicate (length x) 0\<rparr>,
              m'\<lparr>last_state := NumpyState (fst (st_cell_out e)) (snd (st_cell_out e))\<rparr>)"
    using get_state_all_false[OF ls rows] .
  moreover have "out = fst (st_cell_out e)"
    using out e by simp
  ultimately show ?thesis
    using fed cell ls by (intro exI[of _ "st_fed e"] exI[of _ "fst (st_cell_out e)"]
      exI[of _ "snd (st_cell_out e)"]) simp
qed

theorem state_persistence_witness:
  "\<exists>s_in h c. reset_state ([[5, 5], [6, 6]], [[1, 1], [2, 2]]) [0, 1] = Inr s_in
      \<and> lstm_cell (toy_lstm Inner) [[1], [2]] s_in = (h, c)
      \<and> [[6, 6], [2, 2]] = h
      \<and> last_state (snd (forward (toy_lstm Inner) [[1], [2]] [[5, 5], [6, 6]] [[1, 1], [2, 2]]
                            [0, 1] 1)) = TorchState h c
      \<and> get_state
            (snd (forward (toy_lstm Inner) [[1], [2]] [[5, 5], [6, 6]] [[1, 1], [2, 2]] [0, 1] 1))
            (replicate (length [[1], [2::real]]) False)
          = (Inr \<lparr>sd_hx = h, sd_cx = c, sd_initials = replicate (length [[1], [2::real]]) 0\<rparr>,
             (snd (forward (toy_lstm Inner) [[1], [2]] [[5, 5], [6, 6]] [[1, 1], [2, 2]] [0, 1] 1))
               \<lparr>last_state := NumpyState h c\<rparr>)"
proof -
  have "fst (forward (toy_lstm Inner) [[1], [2]] [[5, 5], [6, 6]] [[1, 1], [2, 2]] [0, 1] 1)
      = Inr [[6, 6], [2, 2]]"
    by code_simp
  then have run: "forward (toy_lstm Inner) [[1], [2]] [[5, 5], [6, 6]] [[1, 1], [2, 2]] [0, 1] 1
      = (Inr [[6, 6], [2, 2]],
         snd (forward (toy_lstm Inner) [[1], [2]] [[5, 5], [6, 6]] [[1, 1], [2, 2]] [0, 1] 1))"
    by (simp add: prod_eq_iff)
  have ms: "length [[1], [2::real]] div length [[5, 5], [6, 6::real]] = 1"
    by code_simp
  have ok: "cell_shape_ok (lstm_cell (toy_lstm Inner))"
    using toy_cell_ok by (simp add: toy_lstm_def)
  show ?thesis
    by (rule state_persistence[OF run ms ok])
qed

end
